theory Spec2Isabelle
  imports Main "HOL-Library.Word" "HOL-Library.Signed_Division"
begin

section \<open>Machine integers, time and constants\<close>

text \<open>
  Go's \<^verbatim>\<open>int64\<close> is a 64-bit two's complement word: \<open>+\<close>, \<open>-\<close> and \<open>*\<close> wrap around,
  \<open>sint\<close> reads the signed value, and the comparisons of the source are the signed ones
  (\<open><s\<close>, \<open>\<le>s\<close>). Go's \<^verbatim>\<open>/\<close> on integers truncates towards zero, and the quotient
  wraps like every other result. The only divisor of the source is the constant 100, so
  the panic of a division by zero does not occur.
\<close>

type_synonym int64 = "64 word"

definition go_div :: "int64 \<Rightarrow> int64 \<Rightarrow> int64" where
  "go_div a b = word_of_int (sint a sdiv sint b)"

definition minInt64 :: int64 where
  "minInt64 = word_of_int (- (2 ^ 63))"

text \<open>
  A \<^verbatim>\<open>time.Time\<close> is an instant, counted here in nanoseconds from Go's zero instant
  (January 1 of year 1, UTC), so that \<^verbatim>\<open>IsZero\<close> is equality with 0. A
  \<^verbatim>\<open>time.Duration\<close> is a signed 64-bit count of nanoseconds; \<^verbatim>\<open>Time.Sub\<close> saturates at
  the least and the greatest duration, as its documentation says.
  \<^verbatim>\<open>time.Since(t)\<close> is \<^verbatim>\<open>time.Now().Sub(t)\<close>: the clock reading is the first argument.
\<close>

type_synonym Time = int
type_synonym Duration = int

definition IsZero :: "Time \<Rightarrow> bool" where
  "IsZero t = (t = 0)"

definition minDuration :: Duration where
  "minDuration = - (2 ^ 63)"

definition maxDuration :: Duration where
  "maxDuration = 2 ^ 63 - 1"

definition Sub :: "Time \<Rightarrow> Time \<Rightarrow> Duration" where
  "Sub t u = (if t - u < minDuration then minDuration
              else if maxDuration < t - u then maxDuration
              else t - u)"

definition Since :: "Time \<Rightarrow> Time \<Rightarrow> Duration" where
  "Since now t = Sub now t"

definition Second :: Duration where
  "Second = 1000000000"

definition Minute :: Duration where
  "Minute = 60 * Second"

definition shardsNeeded :: int64 where
  "shardsNeeded = 450"

definition shaleNeeded :: int64 where
  "shaleNeeded = 2520"

definition cacheTTL :: Duration where
  "cacheTTL = 20 * Minute"

definition version :: string where
  "version = ''v1.0.0''"

section \<open>Data model\<close>

record PriceTriple =
  High :: int64
  Low :: int64
  Avg :: int64

record ArmorOption =
  Name :: string
  ItemID :: int
  Price :: PriceTriple

record AppState =
  Shale :: PriceTriple
  Shard :: PriceTriple
  Armors :: "ArmorOption list"
  FetchedAt :: Time
  Mode :: string

record ProfitCase =
  SaleLabel :: string
  SalePrice :: int64
  TaxPaid :: int64
  NetAfterTax :: int64
  Profit :: int64

record ArmorReport =
  Name :: string
  ItemID :: int
  Sale :: PriceTriple
  Cases :: "ProfitCase list"
  BestCase :: ProfitCase

record Report =
  Version :: string
  Mode :: string
  FetchedAt :: Time
  CacheAge :: Duration
  CacheFresh :: bool
  Shale :: PriceTriple
  Shard :: PriceTriple
  IngredientCost :: PriceTriple
  Armors :: "ArmorReport list"
  BestByAvgProfit :: ArmorReport
  BestByHighSale :: ArmorReport

text \<open>The zero values \<^verbatim>\<open>PriceTriple{}\<close>, \<^verbatim>\<open>ProfitCase{}\<close> and \<^verbatim>\<open>ArmorReport{}\<close>.\<close>

definition zeroTriple :: PriceTriple where
  "zeroTriple = \<lparr>High = 0, Low = 0, Avg = 0\<rparr>"

definition zeroCase :: ProfitCase where
  "zeroCase = \<lparr>SaleLabel = [], SalePrice = 0, TaxPaid = 0, NetAfterTax = 0, Profit = 0\<rparr>"

definition zeroArmorReport :: ArmorReport where
  "zeroArmorReport =
     \<lparr>ArmorReport.Name = [], ArmorReport.ItemID = 0, Sale = zeroTriple, Cases = [],
      BestCase = zeroCase\<rparr>"

section \<open>The report computation\<close>

definition computeCase :: "string \<Rightarrow> int64 \<Rightarrow> int64 \<Rightarrow> ProfitCase" where
  "computeCase label salePrice ingredientCost =
     (let taxPaid = go_div (salePrice * 2) 100;
          net = salePrice - taxPaid;
          profit = net - ingredientCost
      in \<lparr>SaleLabel = label, SalePrice = salePrice, TaxPaid = taxPaid,
          NetAfterTax = net, Profit = profit\<rparr>)"

text \<open>The loop of \<^verbatim>\<open>computeArmor\<close> over \<^verbatim>\<open>cases[1:]\<close>, with the running \<^verbatim>\<open>best\<close>.\<close>

fun bestCaseLoop :: "ProfitCase \<Rightarrow> ProfitCase list \<Rightarrow> ProfitCase" where
  "bestCaseLoop best [] = best"
| "bestCaseLoop best (c # cs) =
     bestCaseLoop (if Profit best <s Profit c then c else best) cs"

definition computeArmor :: "ArmorOption \<Rightarrow> PriceTriple \<Rightarrow> ArmorReport" where
  "computeArmor a ingredientCost =
     (let cases = [computeCase ''low'' (Low (Price a)) (Low ingredientCost),
                   computeCase ''avg'' (Avg (Price a)) (Avg ingredientCost),
                   computeCase ''high'' (High (Price a)) (High ingredientCost)];
          best = bestCaseLoop (hd cases) (tl cases)
      in \<lparr>ArmorReport.Name = ArmorOption.Name a, ArmorReport.ItemID = ArmorOption.ItemID a,
          Sale = Price a, Cases = cases, BestCase = best\<rparr>)"

fun profitForLabelLoop :: "ProfitCase list \<Rightarrow> string \<Rightarrow> int64" where
  "profitForLabelLoop [] label = minInt64"
| "profitForLabelLoop (c # cs) label =
     (if SaleLabel c = label then Profit c else profitForLabelLoop cs label)"

definition profitForLabel :: "ArmorReport \<Rightarrow> string \<Rightarrow> int64" where
  "profitForLabel a label = profitForLabelLoop (Cases a) label"

text \<open>The loop of \<^verbatim>\<open>pickBestByAvgProfit\<close>, with \<^verbatim>\<open>best\<close> and \<^verbatim>\<open>bestAvgProfit\<close>.\<close>

fun pickBestByAvgProfitLoop :: "ArmorReport \<Rightarrow> int64 \<Rightarrow> ArmorReport list \<Rightarrow> ArmorReport" where
  "pickBestByAvgProfitLoop best bestAvgProfit [] = best"
| "pickBestByAvgProfitLoop best bestAvgProfit (a # as) =
     (let p = profitForLabel a ''avg''
      in if bestAvgProfit <s p then pickBestByAvgProfitLoop a p as
         else pickBestByAvgProfitLoop best bestAvgProfit as)"

definition pickBestByAvgProfit :: "ArmorReport list \<Rightarrow> ArmorReport" where
  "pickBestByAvgProfit armors =
     (case armors of
        [] \<Rightarrow> zeroArmorReport
      | a # rest \<Rightarrow> pickBestByAvgProfitLoop a (profitForLabel a ''avg'') rest)"

fun pickBestByHighSaleLoop :: "ArmorReport \<Rightarrow> ArmorReport list \<Rightarrow> ArmorReport" where
  "pickBestByHighSaleLoop best [] = best"
| "pickBestByHighSaleLoop best (a # as) =
     pickBestByHighSaleLoop (if High (Sale best) <s High (Sale a) then a else best) as"

definition pickBestByHighSale :: "ArmorReport list \<Rightarrow> ArmorReport" where
  "pickBestByHighSale armors =
     (case armors of
        [] \<Rightarrow> zeroArmorReport
      | a # rest \<Rightarrow> pickBestByHighSaleLoop a rest)"

text \<open>
  \<^verbatim>\<open>ComputeReport\<close> reads the clock through \<^verbatim>\<open>time.Since\<close> when the fetch time is not
  zero; the reading is the argument \<open>now\<close>.
\<close>

definition ComputeReport :: "Time \<Rightarrow> AppState \<Rightarrow> Report" where
  "ComputeReport now state =
     (let age = (if \<not> IsZero (AppState.FetchedAt state)
                 then Since now (AppState.FetchedAt state) else 0);
          fresh = (\<not> IsZero (AppState.FetchedAt state) \<and> age \<le> cacheTTL);
          ingredientCost =
            \<lparr>High = shaleNeeded * High (AppState.Shale state)
                      + shardsNeeded * High (AppState.Shard state),
             Low = shaleNeeded * Low (AppState.Shale state)
                     + shardsNeeded * Low (AppState.Shard state),
             Avg = shaleNeeded * Avg (AppState.Shale state)
                     + shardsNeeded * Avg (AppState.Shard state)\<rparr>;
          armorReports = map (\<lambda>a. computeArmor a ingredientCost) (AppState.Armors state);
          bestByAvg = pickBestByAvgProfit armorReports;
          bestByHighSale = pickBestByHighSale armorReports
      in \<lparr>Version = version, Mode = AppState.Mode state,
          FetchedAt = AppState.FetchedAt state, CacheAge = age, CacheFresh = fresh,
          Shale = AppState.Shale state, Shard = AppState.Shard state,
          IngredientCost = ingredientCost, Armors = armorReports,
          BestByAvgProfit = bestByAvg, BestByHighSale = bestByHighSale\<rparr>)"

section \<open>Manual set\<close>

text \<open>
  \<^verbatim>\<open>strings.Split(s, sep)\<close> for a one-byte separator: the pieces between the separators,
  one piece (the empty one) for the empty string.
\<close>

fun Split :: "string \<Rightarrow> char \<Rightarrow> string list" where
  "Split [] sep = [[]]"
| "Split (x # xs) sep =
     (if x = sep then [] # Split xs sep
      else (case Split xs sep of
              [] \<Rightarrow> [[x]]
            | p # ps \<Rightarrow> (x # p) # ps))"

text \<open>The errors of \<^verbatim>\<open>ApplyManualSet\<close>, one constructor for each message of the source.\<close>

datatype error =
    InvalidFieldFormat
  | UnknownComponent string
  | ArmorListNotInitialized
  | UnknownField

text \<open>
  The closure \<^verbatim>\<open>setTriple\<close> writes through a pointer and returns an error: the model
  returns the triple after the call and the error (\<open>None\<close> for \<^verbatim>\<open>nil\<close>).
\<close>

definition setTriple :: "string \<Rightarrow> int64 \<Rightarrow> PriceTriple \<Rightarrow> PriceTriple \<times> error option" where
  "setTriple component val t =
     (if component = [] then (t\<lparr>High := val, Low := val, Avg := val\<rparr>, None)
      else if component = ''high'' then (t\<lparr>High := val\<rparr>, None)
      else if component = ''low'' then (t\<lparr>Low := val\<rparr>, None)
      else if component = ''avg'' then (t\<lparr>Avg := val\<rparr>, None)
      else (t, Some (UnknownComponent component)))"

definition armorIndex :: "string \<Rightarrow> nat" where
  "armorIndex target =
     (if target = ''armor1'' then 0 else if target = ''armor2'' then 1 else 2)"

text \<open>
  \<^verbatim>\<open>ApplyManualSet\<close> mutates the state behind a pointer: the model returns the state
  after the call together with the error.
\<close>

definition ApplyManualSet :: "AppState \<Rightarrow> string \<Rightarrow> int64 \<Rightarrow> AppState \<times> error option" where
  "ApplyManualSet state field val =
     (let parts = Split field (CHR ''.'');
          target = hd parts
      in if length parts > 2 then (state, Some InvalidFieldFormat)
         else
           let component = (if length parts = 2 then parts ! 1 else [])
           in if target = ''shale'' then
                (case setTriple component val (AppState.Shale state) of
                   (t, e) \<Rightarrow> (state\<lparr>AppState.Shale := t\<rparr>, e))
              else if target = ''shard'' then
                (case setTriple component val (AppState.Shard state) of
                   (t, e) \<Rightarrow> (state\<lparr>AppState.Shard := t\<rparr>, e))
              else if target = ''armor1'' \<or> target = ''armor2'' \<or> target = ''armor3'' then
                (let idx = armorIndex target
                 in if length (AppState.Armors state) < 3
                    then (state, Some ArmorListNotInitialized)
                    else (case setTriple component val (Price (AppState.Armors state ! idx)) of
                            (t, e) \<Rightarrow>
                              (state\<lparr>AppState.Armors :=
                                 (AppState.Armors state)
                                   [idx := (AppState.Armors state ! idx)\<lparr>Price := t\<rparr>]\<rparr>, e)))
              else (state, Some UnknownField))"

text \<open>\<^verbatim>\<open>defaultState\<close>, with the item identifiers of the source.\<close>

definition armorID1 :: int where "armorID1 = 30750"
definition armorID2 :: int where "armorID2 = 30753"
definition armorID3 :: int where "armorID3 = 30756"

definition defaultState :: AppState where
  "defaultState =
     \<lparr>AppState.Shale = zeroTriple, AppState.Shard = zeroTriple,
      AppState.Armors =
        [\<lparr>ArmorOption.Name = ''Oathplate Helmet'', ArmorOption.ItemID = armorID1,
          Price = zeroTriple\<rparr>,
         \<lparr>ArmorOption.Name = ''Oathplate Chestplate'', ArmorOption.ItemID = armorID2,
          Price = zeroTriple\<rparr>,
         \<lparr>ArmorOption.Name = ''Oathplate Legs'', ArmorOption.ItemID = armorID3,
          Price = zeroTriple\<rparr>],
      AppState.FetchedAt = 0, AppState.Mode = ''manual''\<rparr>"

section \<open>First maximum of a list\<close>

text \<open>
  The three selection loops of the source have one shape: keep the first element, and
  replace it only by a strictly greater one. \<open>firstMaxLoop\<close> is that loop over an integer
  key, and \<open>isFirstMax key xs r\<close> says that \<open>r\<close> is the element of \<open>xs\<close> at the least index
  where the key is greatest.
\<close>

fun firstMaxLoop :: "('a \<Rightarrow> int) \<Rightarrow> 'a \<Rightarrow> 'a list \<Rightarrow> 'a" where
  "firstMaxLoop key best [] = best"
| "firstMaxLoop key best (x # xs) =
     firstMaxLoop key (if key best < key x then x else best) xs"

definition isFirstMax :: "('a \<Rightarrow> int) \<Rightarrow> 'a list \<Rightarrow> 'a \<Rightarrow> bool" where
  "isFirstMax key xs r =
     (\<exists>i<length xs. r = xs ! i \<and> (\<forall>j<length xs. key (xs ! j) \<le> key r)
        \<and> (\<forall>j<i. key (xs ! j) < key r))"

section \<open>Signed 64-bit arithmetic\<close>

lemma sint64_bounds:
  "- (2 ^ 63) \<le> sint (a :: int64)" "sint (a :: int64) < 2 ^ 63"
  using sint_ge [of a] sint_lt [of a] by simp_all

lemma sint_word_of_int_64:
  "- (2 ^ 63) \<le> k \<Longrightarrow> k < 2 ^ 63 \<Longrightarrow> sint (word_of_int k :: int64) = k"
  by (simp add: sint_sbintrunc' signed_take_bit_int_eq_self)

lemma sdiv_100_bounds:
  assumes "- (2 ^ 63) \<le> (k::int)" "k < 2 ^ 63"
  shows "- (2 ^ 63) \<le> k sdiv 100" "k sdiv 100 < 2 ^ 63"
proof -
  show "- (2 ^ 63) \<le> k sdiv 100"
    using assms sdiv_int_range [of k 100] by auto
  show "k sdiv 100 < 2 ^ 63"
  proof (cases "0 \<le> k")
    case True
    then have "k sdiv 100 = k div 100"
      by (simp add: signed_divide_int_def sgn_if)
    moreover have "k div 100 \<le> k"
      using True by (metis div_by_1 zdiv_mono2 zero_less_one one_le_numeral)
    ultimately show ?thesis using assms by simp
  next
    case False
    then have "k sdiv 100 = - (\<bar>k\<bar> div 100)"
      by (simp add: signed_divide_int_def sgn_if)
    moreover have "0 \<le> \<bar>k\<bar> div 100"
      by (simp add: pos_imp_zdiv_nonneg_iff)
    ultimately show ?thesis by simp
  qed
qed

text \<open>Division by 100 never leaves the 64-bit range: the quotient is the truncated one.\<close>

lemma sint_go_div_100: "sint (go_div a 100) = sint a sdiv 100"
  unfolding go_div_def
  using sdiv_100_bounds [OF sint64_bounds, of a]
  by (simp add: sint_word_of_int_64)

lemma sint_double:
  assumes "- (2 ^ 62) \<le> sint (p :: int64)" "sint p < 2 ^ 62"
  shows "sint (p * 2) = 2 * sint p"
proof -
  have "sint (p * 2) = signed_take_bit 63 (sint p * 2)"
    by (simp add: sint_word_ariths)
  also have "\<dots> = sint p * 2"
    using assms by (intro signed_take_bit_int_eq_self) simp_all
  finally show ?thesis by simp
qed

lemma computeCase_tax_floor:
  assumes "0 \<le> sint p" "sint p < 2 ^ 62"
  shows "sint (TaxPaid (computeCase l p c)) = (sint p * 2) div 100"
proof -
  have "sint (p * 2) = 2 * sint p"
    using assms by (intro sint_double) simp_all
  then show ?thesis
    using assms
    by (simp add: computeCase_def Let_def sint_go_div_100 signed_divide_int_def sgn_if
        mult.commute)
qed

text \<open>
  Over the integers, the ingredient cost is the linear combination whenever that value
  fits in 64 bits; outside, the source's arithmetic wraps around.
\<close>

lemma sint_linear_cost:
  assumes "- (2 ^ 63) \<le> 2520 * sint (a :: int64) + 450 * sint (b :: int64)"
    "2520 * sint a + 450 * sint b < 2 ^ 63"
  shows "sint (2520 * a + 450 * b) = 2520 * sint a + 450 * sint b"
proof -
  have "sint (2520 * a + 450 * b) = signed_take_bit 63 (2520 * sint a + 450 * sint b)"
    by (simp add: sint_word_ariths signed_take_bit_add signed_take_bit_mult)
  also have "\<dots> = 2520 * sint a + 450 * sint b"
    using assms by (intro signed_take_bit_int_eq_self) simp_all
  finally show ?thesis .
qed

section \<open>The selection loops pick the first maximum\<close>

lemma firstMaxLoop_invariant:
  assumes "i < length ps" "ps ! i = b" "\<forall>j<length ps. key (ps ! j) \<le> key b"
    "\<forall>j<i. key (ps ! j) < key b"
  shows "isFirstMax key (ps @ xs) (firstMaxLoop key b xs)"
  using assms
proof (induction xs arbitrary: ps i b)
  case Nil
  then show ?case unfolding isFirstMax_def by auto
next
  case (Cons x xs)
  show ?case
  proof (cases "key b < key x")
    case True
    have "isFirstMax key ((ps @ [x]) @ xs) (firstMaxLoop key x xs)"
    proof (rule Cons.IH [of "length ps"])
      show "length ps < length (ps @ [x])" by simp
      show "(ps @ [x]) ! length ps = x" by simp
      show "\<forall>j<length (ps @ [x]). key ((ps @ [x]) ! j) \<le> key x"
        using Cons.prems(3) True by (auto simp add: nth_append less_Suc_eq)
      show "\<forall>j<length ps. key ((ps @ [x]) ! j) < key x"
        using Cons.prems(3) True by (auto simp add: nth_append)
    qed
    with True show ?thesis by simp
  next
    case False
    have "isFirstMax key ((ps @ [x]) @ xs) (firstMaxLoop key b xs)"
    proof (rule Cons.IH [of i])
      show "i < length (ps @ [x])" using Cons.prems(1) by simp
      show "(ps @ [x]) ! i = b" using Cons.prems(1,2) by (simp add: nth_append)
      show "\<forall>j<length (ps @ [x]). key ((ps @ [x]) ! j) \<le> key b"
        using Cons.prems(3) False by (auto simp add: nth_append less_Suc_eq)
      show "\<forall>j<i. key ((ps @ [x]) ! j) < key b"
        using Cons.prems(1,4) by (auto simp add: nth_append)
    qed
    with False show ?thesis by simp
  qed
qed

lemma firstMaxLoop_isFirstMax: "isFirstMax key (b # xs) (firstMaxLoop key b xs)"
  using firstMaxLoop_invariant [of 0 "[b]" b key xs] by simp

lemma bestCaseLoop_firstMax:
  "bestCaseLoop best cs = firstMaxLoop (\<lambda>c. sint (Profit c)) best cs"
  by (induction cs arbitrary: best) (simp_all add: word_sless_alt)

lemma pickBestByAvgProfitLoop_firstMax:
  "bp = profitForLabel best ''avg'' \<Longrightarrow>
   pickBestByAvgProfitLoop best bp as
     = firstMaxLoop (\<lambda>a. sint (profitForLabel a ''avg'')) best as"
  by (induction as arbitrary: best bp) (simp_all add: word_sless_alt Let_def)

lemma pickBestByHighSaleLoop_firstMax:
  "pickBestByHighSaleLoop best as = firstMaxLoop (\<lambda>a. sint (High (Sale a))) best as"
  by (induction as arbitrary: best) (simp_all add: word_sless_alt)

lemma computeArmor_Cases:
  "Cases (computeArmor a ic) =
     [computeCase ''low'' (Low (Price a)) (Low ic),
      computeCase ''avg'' (Avg (Price a)) (Avg ic),
      computeCase ''high'' (High (Price a)) (High ic)]"
  by (simp add: computeArmor_def Let_def)

lemma computeArmor_BestCase:
  "BestCase (computeArmor a ic) =
     bestCaseLoop (hd (Cases (computeArmor a ic))) (tl (Cases (computeArmor a ic)))"
  by (simp add: computeArmor_def Let_def)

lemma computeArmor_isFirstMax:
  "isFirstMax (\<lambda>c. sint (Profit c)) (Cases (computeArmor a ic)) (BestCase (computeArmor a ic))"
  unfolding computeArmor_BestCase bestCaseLoop_firstMax
  unfolding computeArmor_Cases list.sel
  by (rule firstMaxLoop_isFirstMax)

lemma pickBestByAvgProfit_isFirstMax:
  assumes "armors \<noteq> []"
  shows "isFirstMax (\<lambda>a. sint (profitForLabel a ''avg'')) armors (pickBestByAvgProfit armors)"
proof -
  obtain a rest where ar: "armors = a # rest"
    using assms by (cases armors) auto
  show ?thesis
    unfolding ar
    by (simp add: pickBestByAvgProfit_def pickBestByAvgProfitLoop_firstMax
        firstMaxLoop_isFirstMax)
qed

lemma pickBestByHighSale_isFirstMax:
  assumes "armors \<noteq> []"
  shows "isFirstMax (\<lambda>a. sint (High (Sale a))) armors (pickBestByHighSale armors)"
proof -
  obtain a rest where ar: "armors = a # rest"
    using assms by (cases armors) auto
  show ?thesis
    unfolding ar
    by (simp add: pickBestByHighSale_def pickBestByHighSaleLoop_firstMax
        firstMaxLoop_isFirstMax)
qed

lemma profitForLabel_avg:
  "profitForLabel (computeArmor a ic) ''avg''
     = Profit (computeCase ''avg'' (Avg (Price a)) (Avg ic))"
  by (simp add: profitForLabel_def computeArmor_Cases computeCase_def Let_def)

lemma Report_Armors:
  "Report.Armors (ComputeReport now s) =
     map (\<lambda>a. computeArmor a (IngredientCost (ComputeReport now s))) (AppState.Armors s)"
  by (simp add: ComputeReport_def Let_def)

lemma ingredient_cost_integer:
  assumes "- (2 ^ 63) \<le> 2520 * sint (tier (AppState.Shale s)) + 450 * sint (tier (AppState.Shard s))"
    "2520 * sint (tier (AppState.Shale s)) + 450 * sint (tier (AppState.Shard s)) < 2 ^ 63"
    "tier = Low \<or> tier = Avg \<or> tier = High"
  shows "sint (tier (IngredientCost (ComputeReport now s)))
           = 2520 * sint (tier (AppState.Shale s)) + 450 * sint (tier (AppState.Shard s))"
proof -
  have "tier (IngredientCost (ComputeReport now s))
          = 2520 * tier (AppState.Shale s) + 450 * tier (AppState.Shard s)"
    using assms(3)
    by (auto simp add: ComputeReport_def Let_def shaleNeeded_def shardsNeeded_def)
  then show ?thesis
    using assms(1,2) by (simp add: sint_linear_cost)
qed

section \<open>Time\<close>

lemma cacheTTL_value: "cacheTTL = 1200000000000"
  by (simp add: cacheTTL_def Minute_def Second_def)

lemma Sub_le_iff:
  "d < maxDuration \<Longrightarrow> minDuration \<le> d \<Longrightarrow> (Sub t u \<le> d) = (t - u \<le> d)"
  by (auto simp add: Sub_def)

lemma CacheFresh_iff:
  "AppState.FetchedAt s \<noteq> 0 \<Longrightarrow>
   CacheFresh (ComputeReport now s) = (now - AppState.FetchedAt s \<le> cacheTTL)"
  by (simp add: ComputeReport_def Let_def IsZero_def Since_def Sub_le_iff cacheTTL_value
      maxDuration_def minDuration_def)

lemma CacheAge_eq:
  "AppState.FetchedAt s \<noteq> 0 \<Longrightarrow>
   CacheAge (ComputeReport now s) = Since now (AppState.FetchedAt s)"
  by (simp add: ComputeReport_def Let_def IsZero_def)

section \<open>Field paths\<close>

lemma Split_not_Nil: "Split xs sep \<noteq> []"
  by (induction xs) (auto split: list.splits)

lemma Split_prefix:
  "sep \<notin> set t \<Longrightarrow> Split (t @ sep # rest) sep = t # Split rest sep"
  by (induction t) (auto split: list.splits)

lemma Split_single: "Split xs sep = [p] \<Longrightarrow> p = xs"
  using Split_not_Nil [of _ sep]
  by (induction xs arbitrary: p) (auto split: list.splits if_splits)

lemma setTriple_unknown:
  "c \<notin> {[], ''high'', ''low'', ''avg''} \<Longrightarrow>
   setTriple c v t = (t, Some (UnknownComponent c))"
  by (simp add: setTriple_def)

lemma armor_update_id:
  "i < length xs \<Longrightarrow> xs[i := (xs ! i)\<lparr>Price := Price (xs ! i)\<rparr>] = xs"
  by (simp add: list_update_same_conv)

lemma armorIndex_lt: "armorIndex t < 3"
  by (simp add: armorIndex_def)

text \<open>Every error path of \<^verbatim>\<open>ApplyManualSet\<close> is taken before the first write.\<close>

lemma ApplyManualSet_error_unchanged:
  assumes "snd (ApplyManualSet s field v) \<noteq> None"
  shows "fst (ApplyManualSet s field v) = s"
proof -
  have st: "\<And>c t. snd (setTriple c v t) \<noteq> None \<Longrightarrow> fst (setTriple c v t) = t"
    by (auto simp add: setTriple_def split: if_splits)
  show ?thesis
    using assms armorIndex_lt [of "hd (Split field (CHR ''.''))"]
    by (auto simp add: ApplyManualSet_def Let_def split_beta st armor_update_id
        split: if_splits)
qed

lemma ApplyManualSet_unknown_target:
  assumes "hd (Split field (CHR ''.''))
             \<notin> {''shale'', ''shard'', ''armor1'', ''armor2'', ''armor3''}"
  shows "\<exists>e. ApplyManualSet s field v = (s, Some e)"
  using assms by (simp add: ApplyManualSet_def Let_def)

lemma ApplyManualSet_short_list:
  assumes "hd (Split field (CHR ''.'')) \<in> {''armor1'', ''armor2'', ''armor3''}"
    "length (AppState.Armors s) < 3"
  shows "\<exists>e. ApplyManualSet s field v = (s, Some e)"
  using assms by (auto simp add: ApplyManualSet_def Let_def)

lemma ApplyManualSet_two_parts:
  assumes "Split field (CHR ''.'') = [target, c]" "c \<notin> {[], ''high'', ''low'', ''avg''}"
  shows "\<exists>e. ApplyManualSet s field v = (s, Some e)"
  using assms(2) armorIndex_lt [of target]
  by (auto simp add: ApplyManualSet_def Let_def assms(1) setTriple_unknown armor_update_id)

lemma ApplyManualSet_many_parts:
  assumes "Split field (CHR ''.'') = p # q # r # rs"
  shows "ApplyManualSet s field v = (s, Some InvalidFieldFormat)"
  by (simp add: ApplyManualSet_def Let_def assms)

lemma ApplyManualSet_unknown_component:
  assumes "target \<in> {''shale'', ''shard'', ''armor1'', ''armor2'', ''armor3''}"
    "c \<notin> {[], ''high'', ''low'', ''avg''}"
  shows "\<exists>e. ApplyManualSet s (target @ ''.'' @ c) v = (s, Some e)"
proof -
  have nd: "CHR ''.'' \<notin> set target"
    using assms(1) by auto
  have sp: "Split (target @ ''.'' @ c) (CHR ''.'') = target # Split c (CHR ''.'')"
    using Split_prefix [OF nd, of c] by simp
  obtain p ps where pps: "Split c (CHR ''.'') = p # ps"
    using Split_not_Nil [of c "CHR ''.''"] by (cases "Split c (CHR ''.'')") auto
  show ?thesis
  proof (cases ps)
    case Nil
    then have "p = c"
      using pps Split_single by blast
    with Nil pps have "Split (target @ ''.'' @ c) (CHR ''.'') = [target, c]"
      using sp by simp
    then show ?thesis
      using assms(2) by (rule ApplyManualSet_two_parts)
  next
    case (Cons q qs)
    then have "Split (target @ ''.'' @ c) (CHR ''.'') = target # p # q # qs"
      using sp pps by simp
    then show ?thesis
      by (simp add: ApplyManualSet_many_parts)
  qed
qed

section \<open>The claims\<close>

subsection \<open>C1: determinism of the report\<close>

text \<open>
  C1, as stated: two calls of the report computation on identical inputs yield identical
  Reports, with no dependence on anything outside the arguments. \<^verbatim>\<open>ComputeReport\<close> takes
  the state alone and reads the wall clock through \<^verbatim>\<open>time.Since\<close> whenever the fetch
  time is not zero. For one and the same state, fetched at 2026-10-31 00:00:00 UTC, a
  call 20 minutes later and a call one second after that return different Reports (the
  first is fresh, the second is not): the claim fails.
\<close>

theorem report_depends_on_clock:
  "ComputeReport 63929002800000000000
      (defaultState\<lparr>AppState.FetchedAt := 63929001600000000000\<rparr>)
     \<noteq> ComputeReport 63929002801000000000
      (defaultState\<lparr>AppState.FetchedAt := 63929001600000000000\<rparr>)"
proof
  assume "ComputeReport 63929002800000000000
      (defaultState\<lparr>AppState.FetchedAt := 63929001600000000000\<rparr>)
     = ComputeReport 63929002801000000000
      (defaultState\<lparr>AppState.FetchedAt := 63929001600000000000\<rparr>)"
  then have "CacheFresh (ComputeReport 63929002800000000000
      (defaultState\<lparr>AppState.FetchedAt := 63929001600000000000\<rparr>))
     = CacheFresh (ComputeReport 63929002801000000000
      (defaultState\<lparr>AppState.FetchedAt := 63929001600000000000\<rparr>))"
    by simp
  then show False
    by (simp add: CacheFresh_iff cacheTTL_value)
qed

text \<open>
  C1, amended: for every state, two calls of the report computation yield Reports that
  agree on every field but the cache age and the freshness flag, which come from the
  clock read during the call; when the fetch time is zero the clock is not read and the
  two Reports are identical.
\<close>

theorem report_deterministic_up_to_clock:
  "(ComputeReport now1 s)\<lparr>CacheAge := 0, CacheFresh := False\<rparr>
     = (ComputeReport now2 s)\<lparr>CacheAge := 0, CacheFresh := False\<rparr>
   \<and> (AppState.FetchedAt s = 0 \<longrightarrow> ComputeReport now1 s = ComputeReport now2 s)"
  by (simp add: ComputeReport_def Let_def IsZero_def)

theorem report_deterministic_up_to_clock_witness:
  "AppState.FetchedAt defaultState = 0
   \<and> ComputeReport 63929001600000000000 defaultState
       = ComputeReport 63929002800000000000 defaultState"
  using report_deterministic_up_to_clock
    [of 63929001600000000000 defaultState 63929002800000000000]
  by (simp add: defaultState_def)

subsection \<open>C2: setting a whole triple, then one member\<close>

text \<open>
  C2: for every state, setting the first ingredient (the field path \<^verbatim>\<open>shale\<close> of the
  source, \<open>ingredientA\<close> in the specification's vocabulary) to 500 succeeds and makes its
  triple high = low = avg = 500; setting \<^verbatim>\<open>shale.high\<close> to 700 afterwards succeeds and
  changes the high member alone: low = avg = 500, and every other field of the state is
  as it was.
\<close>

theorem manual_set_all_then_high:
  "ApplyManualSet s ''shale'' 500
     = (s\<lparr>AppState.Shale := \<lparr>High = 500, Low = 500, Avg = 500\<rparr>\<rparr>, None)
   \<and> ApplyManualSet (fst (ApplyManualSet s ''shale'' 500)) ''shale.high'' 700
     = (s\<lparr>AppState.Shale := \<lparr>High = 700, Low = 500, Avg = 500\<rparr>\<rparr>, None)"
  by (simp add: ApplyManualSet_def Let_def setTriple_def)

subsection \<open>C3: tax, net and profit of a case\<close>

text \<open>
  C3: for every sale price and ingredient cost, in the 64-bit arithmetic of the source,
  the tax of a profit case is the sale price doubled and divided by 100 with truncation,
  the net is the sale price minus the tax, and the profit is the net minus the
  ingredient cost; the three cases of an armor pair each tier's sale price with the
  ingredient cost of the same tier. As signed integers the tax is the truncated quotient
  of the doubled price, which for a price from 0 below \<open>2 ^ 62\<close> (where doubling does
  not wrap) is the floor of \<open>2 * price / 100\<close>. A sale price of 1,000,000 gives a tax of
  20,000 and a net of 980,000; a sale price of 1 gives a tax of 0.
\<close>

theorem computeCase_tax_net_profit:
  "TaxPaid (computeCase l p c) = go_div (p * 2) 100
   \<and> sint (TaxPaid (computeCase l p c)) = sint (p * 2) sdiv 100
   \<and> (0 \<le> sint p \<and> sint p < 2 ^ 62
        \<longrightarrow> sint (TaxPaid (computeCase l p c)) = (sint p * 2) div 100)
   \<and> NetAfterTax (computeCase l p c) = p - TaxPaid (computeCase l p c)
   \<and> Profit (computeCase l p c) = NetAfterTax (computeCase l p c) - c
   \<and> SalePrice (computeCase l p c) = p
   \<and> SaleLabel (computeCase l p c) = l
   \<and> Cases (computeArmor a ic) =
       [computeCase ''low'' (Low (Price a)) (Low ic),
        computeCase ''avg'' (Avg (Price a)) (Avg ic),
        computeCase ''high'' (High (Price a)) (High ic)]
   \<and> TaxPaid (computeCase l 1000000 c) = 20000
   \<and> NetAfterTax (computeCase l 1000000 c) = 980000
   \<and> TaxPaid (computeCase l 1 c) = 0"
proof -
  have tax: "TaxPaid (computeCase l p c) = go_div (p * 2) 100" for l p c
    by (simp add: computeCase_def Let_def)
  have "sint (TaxPaid (computeCase l p c)) = sint (p * 2) sdiv 100"
    by (simp add: tax sint_go_div_100)
  moreover have "NetAfterTax (computeCase l p c) = p - TaxPaid (computeCase l p c)"
    "Profit (computeCase l p c) = NetAfterTax (computeCase l p c) - c"
    "SalePrice (computeCase l p c) = p" "SaleLabel (computeCase l p c) = l"
    by (simp_all add: computeCase_def Let_def)
  moreover have "TaxPaid (computeCase l 1000000 c) = 20000"
    "NetAfterTax (computeCase l 1000000 c) = 980000"
    "TaxPaid (computeCase l 1 c) = 0"
    by (simp_all add: computeCase_def Let_def go_div_def)
  ultimately show ?thesis
    using tax [of l p c] computeCase_tax_floor [of p l c] computeArmor_Cases [of a ic]
    by blast
qed

theorem computeCase_tax_net_profit_witness:
  "0 \<le> sint (250000 :: int64) \<and> sint (250000 :: int64) < 2 ^ 62
   \<and> sint (TaxPaid (computeCase ''avg'' 250000 117900)) = 5000
   \<and> NetAfterTax (computeCase ''avg'' 250000 117900) = 245000
   \<and> Profit (computeCase ''avg'' 250000 117900) = 127100"
  using computeCase_tax_net_profit [of "''avg''" 250000 117900]
  by (simp add: go_div_def)

subsection \<open>C4: ingredient cost\<close>

text \<open>
  C4: for every state and each of the tiers low, avg and high, the ingredient cost of the
  report at that tier is 2520 times the shale price at that tier plus 450 times the
  shard price at that tier, in the 64-bit arithmetic of the source. Shale prices
  (low, avg, high) = (10, 20, 30) and shard prices (100, 150, 200) give the costs
  70,200, 117,900 and 165,600.
\<close>

theorem ingredient_cost_per_tier:
  "Low (IngredientCost (ComputeReport now s))
     = 2520 * Low (AppState.Shale s) + 450 * Low (AppState.Shard s)
   \<and> Avg (IngredientCost (ComputeReport now s))
     = 2520 * Avg (AppState.Shale s) + 450 * Avg (AppState.Shard s)
   \<and> High (IngredientCost (ComputeReport now s))
     = 2520 * High (AppState.Shale s) + 450 * High (AppState.Shard s)
   \<and> IngredientCost (ComputeReport now
        (s\<lparr>AppState.Shale := \<lparr>High = 30, Low = 10, Avg = 20\<rparr>,
           AppState.Shard := \<lparr>High = 200, Low = 100, Avg = 150\<rparr>\<rparr>))
     = \<lparr>High = 165600, Low = 70200, Avg = 117900\<rparr>"
  by (simp add: ComputeReport_def Let_def shaleNeeded_def shardsNeeded_def)

subsection \<open>C5: freshness\<close>

text \<open>
  C5: for every state whose fetch time is present (not zero) and every clock reading,
  the report is fresh exactly when the age, the clock reading minus the fetch time, is at
  most 20 minutes. The boundary is inclusive: an age of exactly 20 minutes is fresh, an
  age of 20 minutes and 1 second is not. Instants and durations are in nanoseconds.
\<close>

theorem freshness_inclusive_boundary:
  assumes "AppState.FetchedAt s \<noteq> 0"
  shows "CacheFresh (ComputeReport now s)
           = (now - AppState.FetchedAt s \<le> 20 * 60 * 1000000000)
     \<and> CacheFresh (ComputeReport (AppState.FetchedAt s + 20 * 60 * 1000000000) s)
     \<and> \<not> CacheFresh
           (ComputeReport (AppState.FetchedAt s + 20 * 60 * 1000000000 + 1000000000) s)"
  using assms by (simp add: CacheFresh_iff cacheTTL_value)

text \<open>A state fetched at 2026-10-31 00:00:00 UTC, read 20 minutes and 20 minutes 1 second later.\<close>

theorem freshness_inclusive_boundary_witness:
  "AppState.FetchedAt (defaultState\<lparr>AppState.FetchedAt := 63929001600000000000\<rparr>) \<noteq> 0
   \<and> CacheFresh (ComputeReport 63929002800000000000
         (defaultState\<lparr>AppState.FetchedAt := 63929001600000000000\<rparr>))
   \<and> \<not> CacheFresh (ComputeReport 63929002800000000001
         (defaultState\<lparr>AppState.FetchedAt := 63929001600000000000\<rparr>))
   \<and> \<not> CacheFresh (ComputeReport 63929002801000000000
         (defaultState\<lparr>AppState.FetchedAt := 63929001600000000000\<rparr>))"
  using freshness_inclusive_boundary
      [of "defaultState\<lparr>AppState.FetchedAt := 63929001600000000000\<rparr>" 63929002800000000000]
    freshness_inclusive_boundary
      [of "defaultState\<lparr>AppState.FetchedAt := 63929001600000000000\<rparr>" 63929002800000000001]
  by simp

subsection \<open>C6: best by average profit\<close>

text \<open>
  C6: for every non-empty list of armor reports, the recommendation by average profit is
  an element of the list whose avg profit (\<^verbatim>\<open>profitForLabel\<close> at \<^verbatim>\<open>avg\<close>, in the
  signed order) is greatest, and among the elements of greatest avg profit it is the
  first in list order: every element before it has a strictly smaller avg profit. In a
  report the recommendation is taken over the report's armor list, and the avg profit of
  a computed armor report is the profit of its avg-tier case.
\<close>

theorem pickBestByAvgProfit_first_max:
  assumes "armors \<noteq> []"
  shows "(\<exists>i<length armors. pickBestByAvgProfit armors = armors ! i
       \<and> (\<forall>j<length armors.
             profitForLabel (armors ! j) ''avg'' \<le>s profitForLabel (armors ! i) ''avg'')
       \<and> (\<forall>j<i. profitForLabel (armors ! j) ''avg'' <s profitForLabel (armors ! i) ''avg''))
     \<and> BestByAvgProfit (ComputeReport now s)
         = pickBestByAvgProfit (Report.Armors (ComputeReport now s))
     \<and> profitForLabel (computeArmor a ic) ''avg'' = Profit (Cases (computeArmor a ic) ! 1)
     \<and> SaleLabel (Cases (computeArmor a ic) ! 1) = ''avg''"
proof -
  have "isFirstMax (\<lambda>a. sint (profitForLabel a ''avg'')) armors (pickBestByAvgProfit armors)"
    using assms by (rule pickBestByAvgProfit_isFirstMax)
  then have "\<exists>i<length armors. pickBestByAvgProfit armors = armors ! i
       \<and> (\<forall>j<length armors.
             profitForLabel (armors ! j) ''avg'' \<le>s profitForLabel (armors ! i) ''avg'')
       \<and> (\<forall>j<i. profitForLabel (armors ! j) ''avg'' <s profitForLabel (armors ! i) ''avg'')"
    unfolding isFirstMax_def by (auto simp add: word_sless_alt word_sle_eq)
  moreover have "BestByAvgProfit (ComputeReport now s)
         = pickBestByAvgProfit (Report.Armors (ComputeReport now s))"
    by (simp add: ComputeReport_def Let_def)
  moreover have "profitForLabel (computeArmor a ic) ''avg'' = Profit (Cases (computeArmor a ic) ! 1)"
    "SaleLabel (Cases (computeArmor a ic) ! 1) = ''avg''"
    by (simp_all add: profitForLabel_avg computeArmor_Cases computeCase_def Let_def)
  ultimately show ?thesis by blast
qed

text \<open>
  Three armors over zero ingredient prices, with avg sale prices 100, 200 and 200: the
  second and the third tie at the greatest avg profit 196, and the second is chosen.
\<close>

theorem pickBestByAvgProfit_first_max_witness:
  "map (\<lambda>a. computeArmor a zeroTriple)
      [\<lparr>ArmorOption.Name = ''Oathplate Helmet'', ArmorOption.ItemID = armorID1,
        Price = \<lparr>High = 100, Low = 100, Avg = 100\<rparr>\<rparr>,
       \<lparr>ArmorOption.Name = ''Oathplate Chestplate'', ArmorOption.ItemID = armorID2,
        Price = \<lparr>High = 200, Low = 200, Avg = 200\<rparr>\<rparr>,
       \<lparr>ArmorOption.Name = ''Oathplate Legs'', ArmorOption.ItemID = armorID3,
        Price = \<lparr>High = 200, Low = 200, Avg = 200\<rparr>\<rparr>] \<noteq> []
   \<and> ArmorReport.Name (pickBestByAvgProfit (map (\<lambda>a. computeArmor a zeroTriple)
      [\<lparr>ArmorOption.Name = ''Oathplate Helmet'', ArmorOption.ItemID = armorID1,
        Price = \<lparr>High = 100, Low = 100, Avg = 100\<rparr>\<rparr>,
       \<lparr>ArmorOption.Name = ''Oathplate Chestplate'', ArmorOption.ItemID = armorID2,
        Price = \<lparr>High = 200, Low = 200, Avg = 200\<rparr>\<rparr>,
       \<lparr>ArmorOption.Name = ''Oathplate Legs'', ArmorOption.ItemID = armorID3,
        Price = \<lparr>High = 200, Low = 200, Avg = 200\<rparr>\<rparr>])) = ''Oathplate Chestplate''"
  using pickBestByAvgProfit_first_max [of "map (\<lambda>a. computeArmor a zeroTriple)
      [\<lparr>ArmorOption.Name = ''Oathplate Helmet'', ArmorOption.ItemID = armorID1,
        Price = \<lparr>High = 100, Low = 100, Avg = 100\<rparr>\<rparr>,
       \<lparr>ArmorOption.Name = ''Oathplate Chestplate'', ArmorOption.ItemID = armorID2,
        Price = \<lparr>High = 200, Low = 200, Avg = 200\<rparr>\<rparr>,
       \<lparr>ArmorOption.Name = ''Oathplate Legs'', ArmorOption.ItemID = armorID3,
        Price = \<lparr>High = 200, Low = 200, Avg = 200\<rparr>\<rparr>]"]
  by (simp add: pickBestByAvgProfit_def profitForLabel_def computeArmor_def computeCase_def
      Let_def zeroTriple_def go_div_def word_sless_alt)

subsection \<open>C7: best case of an armor\<close>

text \<open>
  C7: for every armor report of a report, the cases are the low, avg and high cases in
  that order, and the best case is a case of greatest profit (in the signed order), the
  first such in that order: every case before it has a strictly smaller profit.
\<close>

theorem computeArmor_best_case_first_max:
  assumes "r \<in> set (Report.Armors (ComputeReport now s))"
  shows "map SaleLabel (Cases r) = [''low'', ''avg'', ''high'']
     \<and> (\<exists>i<length (Cases r). BestCase r = Cases r ! i
          \<and> (\<forall>j<length (Cases r). Profit (Cases r ! j) \<le>s Profit (Cases r ! i))
          \<and> (\<forall>j<i. Profit (Cases r ! j) <s Profit (Cases r ! i)))"
proof -
  obtain a ic where r: "r = computeArmor a ic"
    using assms by (auto simp add: Report_Armors)
  have "isFirstMax (\<lambda>c. sint (Profit c)) (Cases r) (BestCase r)"
    unfolding r by (rule computeArmor_isFirstMax)
  then have "\<exists>i<length (Cases r). BestCase r = Cases r ! i
          \<and> (\<forall>j<length (Cases r). Profit (Cases r ! j) \<le>s Profit (Cases r ! i))
          \<and> (\<forall>j<i. Profit (Cases r ! j) <s Profit (Cases r ! i))"
    unfolding isFirstMax_def by (auto simp add: word_sless_alt word_sle_eq)
  moreover have "map SaleLabel (Cases r) = [''low'', ''avg'', ''high'']"
    unfolding r by (simp add: computeArmor_Cases computeCase_def Let_def)
  ultimately show ?thesis by blast
qed

text \<open>
  In the default state every price is zero, so the three cases of the helmet tie at
  profit 0 and the best case is the low one.
\<close>

theorem computeArmor_best_case_first_max_witness:
  "computeArmor (hd (AppState.Armors defaultState)) zeroTriple
     \<in> set (Report.Armors (ComputeReport 0 defaultState))
   \<and> SaleLabel (BestCase (computeArmor (hd (AppState.Armors defaultState)) zeroTriple))
       = ''low''"
  using computeArmor_best_case_first_max
    [of "computeArmor (hd (AppState.Armors defaultState)) zeroTriple" 0 defaultState]
  by (simp add: ComputeReport_def defaultState_def computeArmor_def computeCase_def Let_def
      zeroTriple_def go_div_def shaleNeeded_def shardsNeeded_def word_sless_alt)

subsection \<open>C8: failing manual sets\<close>

text \<open>
  C8, as stated: a component suffix that is anything other than high, low and avg makes
  the call fail and leaves the state unchanged. The source tests the component against
  the empty string first, so the field path \<^verbatim>\<open>shale.\<close>, whose component after the dot is
  empty, is accepted: the call returns no error and overwrites the three members of the
  shale triple. The claim fails there.
\<close>

theorem manual_set_empty_component_accepted:
  "snd (ApplyManualSet defaultState ''shale.'' 5) = None
   \<and> fst (ApplyManualSet defaultState ''shale.'' 5) \<noteq> defaultState"
proof -
  have "ApplyManualSet defaultState ''shale.'' 5
          = (defaultState\<lparr>AppState.Shale := \<lparr>High = 5, Low = 5, Avg = 5\<rparr>\<rparr>, None)"
    by (simp add: ApplyManualSet_def Let_def setTriple_def)
  moreover have "defaultState\<lparr>AppState.Shale := \<lparr>High = 5, Low = 5, Avg = 5\<rparr>\<rparr> \<noteq> defaultState"
    by (simp add: defaultState_def zeroTriple_def)
  ultimately show ?thesis by simp
qed

text \<open>
  C8, amended: for every state, a manual set whose target (the text before the first
  dot) is not one of shale, shard, armor1, armor2, armor3 (such as \<open>ingredientC\<close>), or
  whose target is one of these and whose component suffix is not empty and is none of
  high, low, avg, or whose target is an armor slot while the armor list has fewer than 3
  entries, returns an error and leaves the state unchanged; and every call that returns
  an error leaves the state unchanged.
\<close>

theorem manual_set_failure_leaves_state:
  "(hd (Split field (CHR ''.'')) \<notin> {''shale'', ''shard'', ''armor1'', ''armor2'', ''armor3''}
      \<longrightarrow> (\<exists>e. ApplyManualSet s field v = (s, Some e)))
   \<and> ApplyManualSet s ''ingredientC'' 1 = (s, Some UnknownField)
   \<and> (target \<in> {''shale'', ''shard'', ''armor1'', ''armor2'', ''armor3''}
        \<and> c \<notin> {[], ''high'', ''low'', ''avg''}
      \<longrightarrow> (\<exists>e. ApplyManualSet s (target @ ''.'' @ c) v = (s, Some e)))
   \<and> (hd (Split field (CHR ''.'')) \<in> {''armor1'', ''armor2'', ''armor3''}
        \<and> length (AppState.Armors s) < 3
      \<longrightarrow> (\<exists>e. ApplyManualSet s field v = (s, Some e)))
   \<and> (snd (ApplyManualSet s field v) \<noteq> None \<longrightarrow> fst (ApplyManualSet s field v) = s)"
proof -
  have "ApplyManualSet s ''ingredientC'' 1 = (s, Some UnknownField)"
    by (simp add: ApplyManualSet_def Let_def)
  then show ?thesis
    using ApplyManualSet_unknown_target [of field s v]
      ApplyManualSet_unknown_component [of target c s v]
      ApplyManualSet_short_list [of field s v]
      ApplyManualSet_error_unchanged [of s field v]
    by blast
qed

theorem manual_set_failure_leaves_state_witness:
  "hd (Split ''ingredientC.low'' (CHR ''.''))
     \<notin> {''shale'', ''shard'', ''armor1'', ''armor2'', ''armor3''}
   \<and> ApplyManualSet defaultState ''ingredientC.low'' 1 = (defaultState, Some UnknownField)
   \<and> ''shard'' \<in> {''shale'', ''shard'', ''armor1'', ''armor2'', ''armor3''}
   \<and> ''mid'' \<notin> {[], ''high'', ''low'', ''avg''}
   \<and> ApplyManualSet defaultState (''shard'' @ ''.'' @ ''mid'') 1
       = (defaultState, Some (UnknownComponent ''mid''))
   \<and> hd (Split ''armor2.avg'' (CHR ''.'')) \<in> {''armor1'', ''armor2'', ''armor3''}
   \<and> length (AppState.Armors (defaultState\<lparr>AppState.Armors := []\<rparr>)) < 3
   \<and> ApplyManualSet (defaultState\<lparr>AppState.Armors := []\<rparr>) ''armor2.avg'' 1
       = (defaultState\<lparr>AppState.Armors := []\<rparr>, Some ArmorListNotInitialized)
   \<and> snd (ApplyManualSet defaultState ''shale.high.low'' 1) \<noteq> None
   \<and> fst (ApplyManualSet defaultState ''shale.high.low'' 1) = defaultState"
  using manual_set_failure_leaves_state
      [of "''ingredientC.low''" defaultState 1 "''shard''" "''mid''"]
    manual_set_failure_leaves_state
      [of "''armor2.avg''" "defaultState\<lparr>AppState.Armors := []\<rparr>" 1 "''shard''" "''mid''"]
    manual_set_failure_leaves_state
      [of "''shale.high.low''" defaultState 1 "''shard''" "''mid''"]
  by (simp add: ApplyManualSet_def Let_def setTriple_def)

subsection \<open>C9: the GP parser\<close>

text \<open>
  C9 is about \<^verbatim>\<open>parseGP\<close>, which is \<^verbatim>\<open>strconv.ParseFloat\<close>, a multiplication of
  \<^verbatim>\<open>float64\<close> values, \<^verbatim>\<open>math.Round\<close> and a conversion from \<^verbatim>\<open>float64\<close> to
  \<^verbatim>\<open>int64\<close>: binary floating point, which this development does not embed.
\<close>

subsection \<open>C10: a state that was never fetched\<close>

text \<open>
  C10: for every state whose fetch time is zero and every clock reading, the report is
  not fresh and its age is exactly 0 (an age that the comparison with the time to live
  alone would accept), the report repeats the shale and shard triples of the state, and
  its armor reports are as many as the armors of the state and in the same order: the
  names, item identifiers and sale prices of the reports are those of the armors, for a
  list of any length. For the empty list both recommendations are the zero report.
\<close>

theorem never_fetched_report:
  assumes "AppState.FetchedAt s = 0"
  shows "\<not> CacheFresh (ComputeReport now s)
     \<and> CacheAge (ComputeReport now s) = 0
     \<and> CacheAge (ComputeReport now s) \<le> cacheTTL
     \<and> Report.Shale (ComputeReport now s) = AppState.Shale s
     \<and> Report.Shard (ComputeReport now s) = AppState.Shard s
     \<and> length (Report.Armors (ComputeReport now s)) = length (AppState.Armors s)
     \<and> map ArmorReport.Name (Report.Armors (ComputeReport now s))
         = map ArmorOption.Name (AppState.Armors s)
     \<and> map ArmorReport.ItemID (Report.Armors (ComputeReport now s))
         = map ArmorOption.ItemID (AppState.Armors s)
     \<and> map Sale (Report.Armors (ComputeReport now s)) = map Price (AppState.Armors s)
     \<and> (AppState.Armors s = [] \<longrightarrow>
          BestByAvgProfit (ComputeReport now s) = zeroArmorReport
          \<and> BestByHighSale (ComputeReport now s) = zeroArmorReport)"
  using assms
  by (simp add: ComputeReport_def Let_def IsZero_def cacheTTL_value computeArmor_def comp_def
      pickBestByAvgProfit_def pickBestByHighSale_def)

theorem never_fetched_report_witness:
  "AppState.FetchedAt defaultState = 0
   \<and> \<not> CacheFresh (ComputeReport 63929001600000000000 defaultState)
   \<and> CacheAge (ComputeReport 63929001600000000000 defaultState) = 0
   \<and> map ArmorReport.Name (Report.Armors (ComputeReport 63929001600000000000 defaultState))
       = [''Oathplate Helmet'', ''Oathplate Chestplate'', ''Oathplate Legs'']
   \<and> AppState.Armors (defaultState\<lparr>AppState.Armors := []\<rparr>) = []
   \<and> BestByAvgProfit (ComputeReport 63929001600000000000 (defaultState\<lparr>AppState.Armors := []\<rparr>))
       = zeroArmorReport"
  using never_fetched_report [of defaultState 63929001600000000000]
    never_fetched_report [of "defaultState\<lparr>AppState.Armors := []\<rparr>" 63929001600000000000]
  by (simp add: defaultState_def)

end
